theory Spec2Isabelle
  imports
    Complex_Main
    "HOL-Library.Char_ord"
    "HOL-Library.List_Lexorder"
    "HOL-Library.Product_Lexorder"
    "HOL-Library.Multiset"
begin

section \<open>Wordflow: the word engine\<close>

text \<open>
  A shallow embedding of the class \<open>WordEngine\<close> (dictionary loading, the anagram index
  and the level generator). A JavaScript string is a \<open>string\<close>: a \<open>char\<close> is a code unit
  below 256, where a character, a code unit and a code point coincide. The words the
  engine keeps are ASCII. \<open>trim\<close> and \<open>toLowerCase\<close> below are JavaScript's on such strings;
  \<open>toUpperCase\<close> is JavaScript's on ASCII strings.
\<close>

subsection \<open>Letter signatures and the subset test\<close>

text \<open>\<^verbatim>\<open>word.split('').sort().join('')\<close>: the characters in ascending code order.\<close>

definition signature :: "string \<Rightarrow> string" where
  "signature word = sort word"

text \<open>
  The object \<open>counts\<close> of \<open>isSubset\<close> is a map from characters to numbers; a missing
  property (\<open>undefined\<close>) is \<open>None\<close>. First loop:
  \<^verbatim>\<open>counts[char] = (counts[char] || 0) + 1\<close>.
\<close>

fun count_chars :: "string \<Rightarrow> (char \<rightharpoonup> nat) \<Rightarrow> (char \<rightharpoonup> nat)" where
  "count_chars [] counts = counts"
| "count_chars (c # cs) counts =
     count_chars cs (counts(c \<mapsto> (case counts c of None \<Rightarrow> 0 | Some n \<Rightarrow> n) + 1))"

text \<open>
  Second loop: \<^verbatim>\<open>if (!counts[char] || counts[char] === 0) return false; counts[char]--\<close>.
\<close>

fun use_chars :: "string \<Rightarrow> (char \<rightharpoonup> nat) \<Rightarrow> bool" where
  "use_chars [] counts = True"
| "use_chars (c # cs) counts =
     (case counts c of
        None \<Rightarrow> False
      | Some n \<Rightarrow> if n = 0 then False else use_chars cs (counts(c \<mapsto> n - 1)))"

definition isSubset :: "string \<Rightarrow> string \<Rightarrow> bool" where
  "isSubset smallSorted bigSorted = use_chars smallSorted (count_chars bigSorted Map.empty)"

subsection \<open>Static word tables\<close>

definition PRIORITY_WORDS :: "string list" where
  "PRIORITY_WORDS =
    [''nigh'', ''fain'', ''yore'', ''lore'', ''bard'', ''sage'', ''vale'', ''moor'', ''vial'',
     ''helm'', ''rune'', ''mead'', ''thou'', ''thee'', ''quoth'', ''wrought'', ''blithe'',
     ''stark'', ''grim'', ''vane'', ''reed'']"

definition BLACKLIST :: "string list" where
  "BLACKLIST =
    [''fran'', ''brad'', ''greg'', ''ebay'', ''sony'', ''dell'', ''nike'', ''levi'', ''visa'', ''ford'',
     ''fiat'', ''asda'', ''audi'', ''hugo'', ''marc'', ''jean'', ''paul'', ''ivan'', ''karl'', ''erik'',
     ''http'', ''html'', ''www'', ''com'', ''org'', ''blog'', ''site'', ''user'', ''java'', ''linux'',
     ''unix'', ''xml'', ''json'', ''wifi'', ''apps'', ''tech'', ''data'', ''file'', ''link'', ''code'',
     ''ipad'', ''ipod'', ''xbox'', ''psn'', ''bios'', ''ping'', ''pong'', ''null'', ''void'',
     ''july'', ''june'', ''sept'', ''octo'', ''nov'', ''dec'', ''mon'', ''tue'', ''wed'', ''thu'', ''fri'',
     ''sat'', ''sun'',
     ''vhs'', ''dvd'', ''usb'', ''cpu'', ''ram'', ''pdf'', ''mp3'', ''url'', ''api'', ''sku'', ''vat'',
     ''gmt'', ''pst'',
     ''abc'', ''xyz'', ''qrs'', ''tuv'', ''pqr'', ''mno'']"

text \<open>The literal \<open>fallback\<close> of the \<open>catch\<close> block of \<open>init\<close>.\<close>

definition fallback :: "string list" where
  "fallback =
    [''rust'', ''trust'', ''star'', ''rats'', ''arts'', ''stair'', ''trail'', ''train'',
     ''react'', ''trace'', ''cater'', ''crate'', ''rate'', ''tear'', ''great'', ''gear'',
     ''read'', ''dear'', ''dare'', ''care'', ''race'', ''rice'', ''word'', ''flow'', ''wolf'',
     ''blue'', ''glow'', ''slow'', ''fast'', ''last'', ''past'', ''lake'', ''peak'', ''beam'',
     ''team'', ''meat'', ''tame'', ''mate'', ''late'', ''tale'', ''nigh'', ''lore'', ''bard'',
     ''sage'', ''vale'', ''moor'']"

subsection \<open>Normalising and filtering the raw word list\<close>

text \<open>\<^verbatim>\<open>text.split('\n')\<close>: the pieces between line feeds; the empty text gives one empty piece.\<close>

fun split_lines :: "string \<Rightarrow> string list" where
  "split_lines [] = [[]]"
| "split_lines (c # cs) =
     (if c = CHR 0x0A then [] # split_lines cs
      else (case split_lines cs of
              [] \<Rightarrow> [[c]]
            | l # ls \<Rightarrow> (c # l) # ls))"

text \<open>
  The white space and line terminators below 256 that \<open>trim\<close> removes at both ends: tab,
  line feed, vertical tab, form feed, carriage return, space and the no-break space
  U+00A0.
\<close>

definition is_space :: "char \<Rightarrow> bool" where
  "is_space c \<longleftrightarrow>
     c \<in> set [CHR 0x09, CHR 0x0A, CHR 0x0B, CHR 0x0C, CHR 0x0D, CHR '' '', CHR 0xA0]"

definition trim :: "string \<Rightarrow> string" where
  "trim w = rev (dropWhile is_space (rev (dropWhile is_space w)))"

text \<open>
  \<open>toLowerCase\<close> on a code unit below 256: the letters A to Z, and the accented capitals
  U+00C0 to U+00DE other than the multiplication sign U+00D7, move up by 32.
\<close>

definition lower_char :: "char \<Rightarrow> char" where
  "lower_char c =
     (if CHR ''A'' \<le> c \<and> c \<le> CHR ''Z'' then char_of (of_char c + (32 :: nat))
      else if CHR 0xC0 \<le> c \<and> c \<le> CHR 0xDE \<and> c \<noteq> CHR 0xD7
        then char_of (of_char c + (32 :: nat))
      else c)"

text \<open>
  \<open>toUpperCase\<close> is applied to the root only, which after \<open>init\<close> is a word of the letters a
  to z. On ASCII it moves a to z down by 32. Beyond ASCII JavaScript's result can leave the
  range below 256 or be longer than its argument (U+00DF gives "SS"); such a character is
  left as it is here.
\<close>

definition upper_char :: "char \<Rightarrow> char" where
  "upper_char c =
     (if CHR ''a'' \<le> c \<and> c \<le> CHR ''z'' then char_of (of_char c - (32 :: nat)) else c)"

definition toLowerCase :: "string \<Rightarrow> string" where
  "toLowerCase w = map lower_char w"

definition toUpperCase :: "string \<Rightarrow> string" where
  "toUpperCase w = map upper_char w"

text \<open>
  The four tests of the filter callback:
  \<^verbatim>\<open>w.length >= 4 && w.length <= 7\<close>, \<^verbatim>\<open>/^[a-z]+$/.test(w)\<close>,
  \<^verbatim>\<open>/[aeiouy]/.test(w)\<close> and \<^verbatim>\<open>this.BLACKLIST.has(w)\<close>.
\<close>

definition isCorrectLength :: "string \<Rightarrow> bool" where
  "isCorrectLength w \<longleftrightarrow> length w \<ge> 4 \<and> length w \<le> 7"

definition isAlpha :: "string \<Rightarrow> bool" where
  "isAlpha w \<longleftrightarrow> w \<noteq> [] \<and> list_all (\<lambda>c. CHR ''a'' \<le> c \<and> c \<le> CHR ''z'') w"

definition hasVowel :: "string \<Rightarrow> bool" where
  "hasVowel w \<longleftrightarrow> list_ex (\<lambda>c. c \<in> set ''aeiouy'') w"

definition isBlacklisted :: "string \<Rightarrow> bool" where
  "isBlacklisted w \<longleftrightarrow> w \<in> set BLACKLIST"

definition admitted :: "string \<Rightarrow> bool" where
  "admitted w \<longleftrightarrow> isCorrectLength w \<and> isAlpha w \<and> hasVowel w \<and> \<not> isBlacklisted w"

definition fetchedWords :: "string \<Rightarrow> string list" where
  "fetchedWords text = filter admitted (map (\<lambda>w. toLowerCase (trim w)) (split_lines text))"

text \<open>
  \<^verbatim>\<open>[...new Set(xs)]\<close>: a \<open>Set\<close> keeps its elements in insertion order and ignores an
  element it already has.
\<close>

definition set_add :: "string list \<Rightarrow> string \<Rightarrow> string list" where
  "set_add s x = (if x \<in> set s then s else s @ [x])"

definition new_Set :: "string list \<Rightarrow> string list" where
  "new_Set xs = foldl set_add [] xs"

subsection \<open>The engine state and \<open>init\<close>\<close>

text \<open>
  The field \<open>clusters\<close> is a \<open>Map\<close> from signatures to word arrays; its entries are kept
  in insertion order, which is the order \<open>entries()\<close> yields them in. A \<open>Map\<close> has each key
  once; \<open>set\<close> of a new key appends an entry.
\<close>

record WordEngine =
  clusters :: "(string \<times> string list) list"
  dictionary :: "string list"
  dictionarySet :: "string set"

text \<open>The field initialisers of the class: the state of \<^verbatim>\<open>new WordEngine()\<close>.\<close>

definition new_WordEngine :: WordEngine where
  "new_WordEngine = \<lparr>clusters = [], dictionary = [], dictionarySet = {}\<rparr>"

text \<open>
  The body of the \<open>forEach\<close> callback:
  \<^verbatim>\<open>if (!this.clusters.has(sorted)) this.clusters.set(sorted, []);\<close>
  \<^verbatim>\<open>this.clusters.get(sorted)!.push(word);\<close>
\<close>

definition cluster_has :: "(string \<times> string list) list \<Rightarrow> string \<Rightarrow> bool" where
  "cluster_has cs k \<longleftrightarrow> k \<in> set (map fst cs)"

definition cluster_push :: "(string \<times> string list) list \<Rightarrow> string \<Rightarrow> string \<Rightarrow> (string \<times> string list) list" where
  "cluster_push cs k word = map (\<lambda>(k', ws). if k' = k then (k', ws @ [word]) else (k', ws)) cs"

definition add_word :: "(string \<times> string list) list \<Rightarrow> string \<Rightarrow> (string \<times> string list) list" where
  "add_word cs word =
     (let sorted = signature word;
          cs' = (if \<not> cluster_has cs sorted then cs @ [(sorted, [])] else cs)
      in cluster_push cs' sorted word)"

definition add_words :: "(string \<times> string list) list \<Rightarrow> string list \<Rightarrow> (string \<times> string list) list" where
  "add_words cs words = foldl add_word cs words"

text \<open>
  What \<open>init\<close> awaits: \<open>fetch\<close> rejects (\<open>None\<close>) or resolves with a response, whose
  \<open>ok\<close> flag is read and whose \<open>text()\<close> rejects (\<open>None\<close>) or resolves with the body.
\<close>

datatype response = Response (ok: bool) (body: "string option")

datatype js_error = Fetch_rejected | Dictionary_fetch_failed | Text_rejected

text \<open>The \<open>try\<close> block of \<open>init\<close>; \<open>Inl\<close> is the exception it throws.\<close>

definition init_try :: "response option \<Rightarrow> WordEngine \<Rightarrow> js_error + WordEngine" where
  "init_try fetched e =
     (case fetched of
        None \<Rightarrow> Inl Fetch_rejected
      | Some resp \<Rightarrow>
          if \<not> ok resp then Inl Dictionary_fetch_failed
          else (case body resp of
                  None \<Rightarrow> Inl Text_rejected
                | Some text \<Rightarrow>
                    let combined = new_Set (fetchedWords text @ PRIORITY_WORDS)
                    in Inr \<lparr>clusters = add_words [] combined,
                            dictionary = combined,
                            dictionarySet = set combined\<rparr>))"

text \<open>The \<open>catch\<close> block: the clusters are not cleared here.\<close>

definition init_catch :: "WordEngine \<Rightarrow> WordEngine" where
  "init_catch e =
     \<lparr>clusters = add_words (clusters e) fallback,
      dictionary = fallback,
      dictionarySet = set fallback\<rparr>"

definition init :: "response option \<Rightarrow> WordEngine \<Rightarrow> WordEngine" where
  "init fetched e = (case init_try fetched e of Inr e' \<Rightarrow> e' | Inl error \<Rightarrow> init_catch e)"

definition isValidWord :: "WordEngine \<Rightarrow> string \<Rightarrow> bool" where
  "isValidWord e word \<longleftrightarrow> toLowerCase word \<in> dictionarySet e"

subsection \<open>Randomness\<close>

text \<open>
  A value of \<open>Math.random()\<close> is a number \<open>r\<close> with \<open>0 \<le> r < 1\<close>; every double is a
  rational. \<open>Math.floor(Math.random() * n)\<close> is the floor of the product, taken exactly
  here: the rounded product of doubles stays within \<open>0\<close> and \<open>n - 1\<close> as the exact one does,
  and the draws are arbitrary.
\<close>

typedef draw = "{r :: rat. 0 \<le> r \<and> r < 1}"
  by (rule exI [of _ 0]) simp

setup_lifting type_definition_draw

lift_definition draw_of :: "rat \<Rightarrow> draw" is "\<lambda>r. if 0 \<le> r \<and> r < 1 then r else 0"
  by simp

lift_definition random_floor :: "draw \<Rightarrow> nat \<Rightarrow> nat" is "\<lambda>r n. nat \<lfloor>r * of_nat n\<rfloor>" .

text \<open>
  The calls of \<open>Math.random()\<close> that one call of \<open>generateLevel\<close> makes: one for the root,
  one for each candidate of a pool that is trimmed, one for each step of the shuffle.
  For the candidate at position \<open>i\<close>, \<open>score i word\<close> is the double that
  \<^verbatim>\<open>Math.pow(Math.random(), 1 / word.length)\<close> evaluates to.
\<close>

record randomness =
  root_draw :: draw
  score :: "nat \<Rightarrow> string \<Rightarrow> rat"
  shuffle_draw :: "nat \<Rightarrow> draw"

subsection \<open>\<open>generateLevel\<close>\<close>

record LevelData =
  rootLetters :: string
  displayLetters :: "char list"
  validWords :: "string list"
  foundWords :: "string set"

text \<open>
  \<open>targetLength\<close> is a JavaScript number; a word's length equals it only when it is a
  natural number, so an integer stands for it (any other number behaves as \<open>-1\<close> does).
\<close>

definition words_of_length :: "WordEngine \<Rightarrow> int \<Rightarrow> string list" where
  "words_of_length e targetLength = filter (\<lambda>w. int (length w) = targetLength) (dictionary e)"

definition rootWords :: "WordEngine \<Rightarrow> int \<Rightarrow> string list" where
  "rootWords e targetLength =
     (if length (words_of_length e targetLength) = 0 then words_of_length e 5
      else words_of_length e targetLength)"

text \<open>
  \<^verbatim>\<open>rootWords[Math.floor(Math.random() * rootWords.length)] || "water"\<close>: reading an
  array outside its bounds gives \<open>undefined\<close> (\<open>None\<close>), and \<open>x || d\<close> is \<open>d\<close> when \<open>x\<close> is
  \<open>undefined\<close> or the empty string. So the root is a string in every case, and the calls
  of \<open>split\<close> and \<open>toUpperCase\<close> on it cannot throw.
\<close>

definition at_index :: "'a list \<Rightarrow> nat \<Rightarrow> 'a option" where
  "at_index xs k = (if k < length xs then Some (xs ! k) else None)"

definition or_else :: "string option \<Rightarrow> string \<Rightarrow> string" where
  "or_else x d = (case x of None \<Rightarrow> d | Some w \<Rightarrow> if w = [] then d else w)"

definition randomRoot :: "randomness \<Rightarrow> WordEngine \<Rightarrow> int \<Rightarrow> string" where
  "randomRoot rnd e targetLength =
     (let ws = rootWords e targetLength
      in or_else (at_index ws (random_floor (root_draw rnd) (length ws))) ''water'')"

text \<open>The scan of \<open>this.clusters.entries()\<close>.\<close>

definition allValid :: "WordEngine \<Rightarrow> string \<Rightarrow> string list" where
  "allValid e rootSorted =
     concat (map snd (filter (\<lambda>(sortedLetters, ws). isSubset sortedLetters rootSorted) (clusters e)))"

text \<open>
  The trimming to \<open>maxWords = 12\<close>: the candidates are scored, sorted by descending score
  (the sort is stable) and the first twelve are kept.
\<close>

definition scoredWords :: "randomness \<Rightarrow> string list \<Rightarrow> (string \<times> rat) list" where
  "scoredWords rnd ws = map (\<lambda>(i, word). (word, score rnd i word)) (enumerate 0 ws)"

definition selectedWords :: "randomness \<Rightarrow> string list \<Rightarrow> string list" where
  "selectedWords rnd ws =
     (if length ws \<le> 12 then ws
      else map fst (take 12 (sort_key (\<lambda>sw. - snd sw) (scoredWords rnd ws))))"

text \<open>
  \<^verbatim>\<open>selectedWords.sort((a, b) => a.length - b.length || a.localeCompare(b))\<close>. The
  order of \<open>localeCompare\<close> depends on the locale of the runtime; the alphabetical order by
  code unit stands for it here, which is the order of the English collation on lower-case
  ASCII words. No statement below depends on this choice: they use only that the sort
  permutes the words.
\<close>

definition sort_words :: "string list \<Rightarrow> string list" where
  "sort_words ws = sort_key (\<lambda>w. (length w, w)) ws"

text \<open>
  The shuffle: \<^verbatim>\<open>for (let i = d.length - 1; i > 0; i--)\<close> with
  \<^verbatim>\<open>j = Math.floor(Math.random() * (i + 1))\<close> and the exchange of \<open>d[i]\<close> and \<open>d[j]\<close>.
\<close>

definition swap :: "nat \<Rightarrow> nat \<Rightarrow> 'a list \<Rightarrow> 'a list" where
  "swap i j d = d[i := d ! j, j := d ! i]"

fun shuffle_from :: "(nat \<Rightarrow> draw) \<Rightarrow> nat \<Rightarrow> char list \<Rightarrow> char list" where
  "shuffle_from rnd 0 d = d"
| "shuffle_from rnd (Suc i) d =
     (let j = random_floor (rnd (Suc i)) (Suc i + 1)
      in shuffle_from rnd i (swap (Suc i) j d))"

definition shuffle :: "(nat \<Rightarrow> draw) \<Rightarrow> char list \<Rightarrow> char list" where
  "shuffle rnd d = shuffle_from rnd (length d - 1) d"

definition generateLevel :: "randomness \<Rightarrow> WordEngine \<Rightarrow> int \<Rightarrow> LevelData" where
  "generateLevel rnd e targetLength =
     (let root = randomRoot rnd e targetLength;
          rootSorted = signature root
      in \<lparr>rootLetters = rootSorted,
          displayLetters = shuffle (shuffle_draw rnd) (toUpperCase root),
          validWords = sort_words (selectedWords rnd (allValid e rootSorted)),
          foundWords = {}\<rparr>)"

subsection \<open>Notions used in the statements\<close>

text \<open>How often \<open>counts\<close> still offers a character.\<close>

definition available :: "(char \<rightharpoonup> nat) \<Rightarrow> char \<Rightarrow> nat" where
  "available counts c = (case counts c of None \<Rightarrow> 0 | Some n \<Rightarrow> n)"

text \<open>All the words of the Cluster Index, cluster after cluster.\<close>

definition cluster_words :: "(string \<times> string list) list \<Rightarrow> string list" where
  "cluster_words cs = concat (map snd cs)"

text \<open>Every word of a cluster has the cluster's key as its signature.\<close>

definition keyed_by_signature :: "(string \<times> string list) list \<Rightarrow> bool" where
  "keyed_by_signature cs \<longleftrightarrow> (\<forall>(k, ws) \<in> set cs. \<forall>w \<in> set ws. signature w = k)"

text \<open>The randomness in which every \<open>Math.random()\<close> returns \<open>0\<close> and every score is \<open>0\<close>.\<close>

definition zero_draws :: randomness where
  "zero_draws = \<lparr>root_draw = draw_of 0, score = (\<lambda>i w. 0), shuffle_draw = (\<lambda>i. draw_of 0)\<rparr>"

text \<open>A raw word list: fourteen words spelt with letters of "strain", one on each line.\<close>

definition sample_text :: string where
  "sample_text = ''strain\<newline>rain\<newline>rant\<newline>stair\<newline>train\<newline>saint\<newline>star\<newline>rats\<newline>arts\<newline>airs\<newline>ants\<newline>tars\<newline>tins\<newline>stir''"

text \<open>A randomness whose first \<open>Math.random()\<close> returns one half.\<close>

definition half_draws :: randomness where
  "half_draws = \<lparr>root_draw = draw_of (1 / 2), score = (\<lambda>i w. 0), shuffle_draw = (\<lambda>i. draw_of 0)\<rparr>"

text \<open>The state after two calls of \<open>init\<close> on a new engine whose \<open>fetch\<close> both reject.\<close>

definition failed_twice :: WordEngine where
  "failed_twice = init None (init None new_WordEngine)"

text \<open>
  The state after a call of \<open>init\<close> that loads the sample word list and a second call
  whose \<open>fetch\<close> rejects.
\<close>

definition loaded_then_failed :: WordEngine where
  "loaded_then_failed = init None (init (Some (Response True (Some sample_text))) new_WordEngine)"

text \<open>
  A constrained test dictionary: the state in which the dictionary is the given word list
  and the clusters are built from it as \<open>init\<close> builds them.
\<close>

definition engine_of :: "string list \<Rightarrow> WordEngine" where
  "engine_of ws = \<lparr>clusters = add_words [] ws, dictionary = ws, dictionarySet = set ws\<rparr>"

section \<open>Properties\<close>

subsection \<open>The subset test\<close>

lemma available_count_chars:
  "available (count_chars s counts) c = available counts c + count (mset s) c"
  by (induction s arbitrary: counts) (auto simp: available_def)

lemma use_chars_iff:
  "use_chars s counts \<longleftrightarrow> (\<forall>c. count (mset s) c \<le> available counts c)"
proof (induction s arbitrary: counts)
  case Nil
  show ?case by simp
next
  case (Cons a s)
  show ?case
  proof (cases "counts a")
    case None
    then have "\<not> count (mset (a # s)) a \<le> available counts a"
      by (simp add: available_def)
    with None show ?thesis by auto
  next
    case (Some n)
    show ?thesis
    proof (cases "n = 0")
      case True
      with Some have "\<not> count (mset (a # s)) a \<le> available counts a"
        by (simp add: available_def)
      with Some True show ?thesis by auto
    next
      case False
      have av: "available (counts(a \<mapsto> n - 1)) c =
          (if c = a then n - 1 else available counts c)" for c
        by (simp add: available_def)
      have "(\<forall>c. count (mset s) c \<le> available (counts(a \<mapsto> n - 1)) c) \<longleftrightarrow>
          (\<forall>c. count (mset (a # s)) c \<le> available counts c)"
      proof
        assume h: "\<forall>c. count (mset s) c \<le> available (counts(a \<mapsto> n - 1)) c"
        show "\<forall>c. count (mset (a # s)) c \<le> available counts c"
        proof
          fix c
          from h have "count (mset s) c \<le> available (counts(a \<mapsto> n - 1)) c" ..
          with Some False show "count (mset (a # s)) c \<le> available counts c"
            by (cases "c = a") (auto simp: av available_def)
        qed
      next
        assume h: "\<forall>c. count (mset (a # s)) c \<le> available counts c"
        show "\<forall>c. count (mset s) c \<le> available (counts(a \<mapsto> n - 1)) c"
        proof
          fix c
          from h have "count (mset (a # s)) c \<le> available counts c" ..
          with Some False show "count (mset s) c \<le> available (counts(a \<mapsto> n - 1)) c"
            by (cases "c = a") (auto simp: av available_def)
        qed
      qed
      moreover from Some False
      have "use_chars (a # s) counts = use_chars s (counts(a \<mapsto> n - 1))"
        by simp
      ultimately show ?thesis
        using Cons.IH [of "counts(a \<mapsto> n - 1)"] by blast
    qed
  qed
qed

lemma available_empty: "available Map.empty c = 0"
  by (simp add: available_def)

lemma isSubset_iff_mset: "isSubset small big \<longleftrightarrow> mset small \<subseteq># mset big"
  by (simp add: isSubset_def use_chars_iff available_count_chars available_empty
      subseteq_mset_def)

lemma mset_signature: "mset (signature w) = mset w"
  by (simp add: signature_def)

subsection \<open>Randomness, the shuffle, the selection\<close>

lemma random_floor_less: "0 < n \<Longrightarrow> random_floor r n < n"
proof (transfer)
  fix n :: nat and r :: rat
  assume n: "0 < n" and r: "0 \<le> r \<and> r < 1"
  then have "r * of_nat n < of_nat n" by simp
  then have "\<lfloor>r * of_nat n\<rfloor> < int n"
    by (simp add: floor_less_iff)
  moreover from r have "0 \<le> \<lfloor>r * of_nat n\<rfloor>" by simp
  ultimately show "nat \<lfloor>r * of_nat n\<rfloor> < n" by linarith
qed

lemma random_floor_zero: "random_floor (draw_of 0) n = 0"
  by (simp add: random_floor.rep_eq draw_of.rep_eq)

lemma mset_swap_list: "i < length d \<Longrightarrow> j < length d \<Longrightarrow> mset (swap i j d) = mset d"
  unfolding swap_def by (rule mset_swap)

lemma length_swap: "length (swap i j d) = length d"
  by (simp add: swap_def)

lemma shuffle_from_perm:
  "i < length d \<Longrightarrow> mset (shuffle_from rnd i d) = mset d \<and> length (shuffle_from rnd i d) = length d"
proof (induction i arbitrary: d)
  case 0
  show ?case by simp
next
  case (Suc i)
  let ?j = "random_floor (rnd (Suc i)) (Suc i + 1)"
  have "?j < Suc i + 1" by (rule random_floor_less) simp
  with Suc.prems have j: "?j < length d" by simp
  have "i < length (swap (Suc i) ?j d)" using Suc.prems by (simp add: length_swap)
  from Suc.IH [OF this] Suc.prems j show ?case
    by (simp add: Let_def mset_swap_list length_swap)
qed

lemma mset_shuffle: "mset (shuffle rnd d) = mset d"
proof (cases d)
  case Nil
  then show ?thesis by (simp add: shuffle_def)
next
  case (Cons a as)
  then have "length d - 1 < length d" by simp
  then show ?thesis unfolding shuffle_def by (simp add: shuffle_from_perm)
qed

lemma length_shuffle: "length (shuffle rnd d) = length d"
  using mset_shuffle [of rnd d] by (metis size_mset)

lemma set_add_set: "set (set_add s x) = insert x (set s)"
  by (auto simp: set_add_def)

lemma set_add_distinct: "distinct s \<Longrightarrow> distinct (set_add s x)"
  by (simp add: set_add_def)

lemma foldl_set_add:
  "set (foldl set_add s xs) = set s \<union> set xs \<and> (distinct s \<longrightarrow> distinct (foldl set_add s xs))"
  by (induction xs arbitrary: s) (auto simp: set_add_set set_add_distinct)

lemma set_new_Set: "set (new_Set xs) = set xs"
  by (simp add: new_Set_def foldl_set_add)

lemma distinct_new_Set: "distinct (new_Set xs)"
  by (simp add: new_Set_def foldl_set_add)

lemma mset_sort_words: "mset (sort_words ws) = mset ws"
  by (simp add: sort_words_def)

lemma map_fst_scoredWords: "map fst (scoredWords rnd ws) = ws"
proof -
  have "fst \<circ> (\<lambda>(i, word). (word, score rnd i word)) = snd"
    by (rule ext) (simp add: case_prod_beta)
  then have "map fst (scoredWords rnd ws) = map snd (enumerate 0 ws)"
    by (simp add: scoredWords_def)
  then show ?thesis by simp
qed

lemma mset_take_subset: "mset (take n xs) \<subseteq># mset xs"
  by (metis append_take_drop_id mset_append mset_subset_eq_add_left)

lemma selectedWords_small: "length ws \<le> 12 \<Longrightarrow> selectedWords rnd ws = ws"
  by (simp add: selectedWords_def)

lemma selectedWords_large:
  assumes "12 < length ws"
  shows "length (selectedWords rnd ws) = 12"
    and "mset (selectedWords rnd ws) \<subseteq># mset ws"
proof -
  let ?sorted = "sort_key (\<lambda>sw. - snd sw) (scoredWords rnd ws)"
  have sel: "selectedWords rnd ws = map fst (take 12 ?sorted)"
    using assms by (simp add: selectedWords_def)
  have len: "length ?sorted = length ws"
    by (simp add: scoredWords_def)
  with assms show "length (selectedWords rnd ws) = 12"
    by (simp add: sel)
  have "mset (map fst (take 12 ?sorted)) \<subseteq># mset (map fst ?sorted)"
    unfolding mset_map by (rule image_mset_subseteq_mono) (rule mset_take_subset)
  also have "mset (map fst ?sorted) = image_mset fst (mset (scoredWords rnd ws))"
    by simp
  also have "\<dots> = mset (map fst (scoredWords rnd ws))" by simp
  also have "\<dots> = mset ws" by (simp only: map_fst_scoredWords)
  finally show "mset (selectedWords rnd ws) \<subseteq># mset ws" by (simp only: sel)
qed

lemma mset_selectedWords: "mset (selectedWords rnd ws) \<subseteq># mset ws"
  by (cases "length ws \<le> 12") (simp_all add: selectedWords_small selectedWords_large)

lemma distinct_mset_subset:
  assumes "mset xs \<subseteq># mset ys" and "distinct ys"
  shows "distinct xs"
proof -
  have "count (mset xs) a = (if a \<in> set xs then 1 else 0)" for a
  proof (cases "a \<in> set xs")
    case True
    then have "1 \<le> count (mset xs) a" by (simp add: Suc_le_eq)
    moreover have "count (mset xs) a \<le> count (mset ys) a"
      using assms(1) by (rule mset_subset_eq_count)
    moreover have "count (mset ys) a \<le> 1"
      using assms(2) by (simp add: distinct_count_atmost_1)
    ultimately have "count (mset xs) a = 1" by linarith
    with True show ?thesis by simp
  next
    case False
    then show ?thesis by (simp add: count_mset_0_iff)
  qed
  then show ?thesis by (simp add: distinct_count_atmost_1)
qed

subsection \<open>Building the Cluster Index\<close>

lemma map_fst_cluster_push: "map fst (cluster_push cs k w) = map fst cs"
  by (induction cs) (auto simp: cluster_push_def)

lemma cluster_words_push_absent:
  "k \<notin> set (map fst cs) \<Longrightarrow> cluster_words (cluster_push cs k w) = cluster_words cs"
  by (induction cs) (auto simp: cluster_push_def cluster_words_def)

lemma mset_cluster_words_push:
  "distinct (map fst cs) \<Longrightarrow> k \<in> set (map fst cs) \<Longrightarrow>
     mset (cluster_words (cluster_push cs k w)) = add_mset w (mset (cluster_words cs))"
proof (induction cs)
  case Nil
  then show ?case by simp
next
  case (Cons c cs)
  obtain k' ws where c: "c = (k', ws)" by (cases c)
  show ?case
  proof (cases "k' = k")
    case True
    with Cons.prems c have "k \<notin> set (map fst cs)" by simp
    then have "cluster_words (cluster_push cs k w) = cluster_words cs"
      by (rule cluster_words_push_absent)
    then have "concat (map snd (cluster_push cs k w)) = concat (map snd cs)"
      by (simp add: cluster_words_def)
    with True c show ?thesis
      by (simp add: cluster_push_def cluster_words_def)
  next
    case False
    with Cons.prems c have "distinct (map fst cs)" and "k \<in> set (map fst cs)" by auto
    then have "mset (cluster_words (cluster_push cs k w)) = add_mset w (mset (cluster_words cs))"
      by (rule Cons.IH)
    with False c show ?thesis
      by (simp add: cluster_push_def cluster_words_def)
  qed
qed

lemma cluster_push_entries:
  "(k', ws') \<in> set (cluster_push cs k w) \<Longrightarrow>
     \<exists>ws. (k', ws) \<in> set cs \<and> ws' = (if k' = k then ws @ [w] else ws)"
  by (auto simp: cluster_push_def split: if_splits)

lemma cluster_push_member:
  "(k, ws) \<in> set cs \<Longrightarrow> (k, ws @ [w]) \<in> set (cluster_push cs k w)"
  by (force simp: cluster_push_def)

lemma cluster_push_keeps:
  "(k', ws) \<in> set cs \<Longrightarrow> \<exists>ws'. (k', ws') \<in> set (cluster_push cs k w) \<and> set ws \<subseteq> set ws'"
  by (cases "k' = k") (force simp: cluster_push_def)+

lemma add_word_keys: "distinct (map fst cs) \<Longrightarrow> distinct (map fst (add_word cs w))"
  by (simp add: add_word_def Let_def map_fst_cluster_push cluster_has_def)

lemma add_word_mset:
  assumes "distinct (map fst cs)"
  shows "mset (cluster_words (add_word cs w)) = add_mset w (mset (cluster_words cs))"
proof (cases "cluster_has cs (signature w)")
  case True
  then have "add_word cs w = cluster_push cs (signature w) w"
    by (simp add: add_word_def Let_def)
  moreover from True have "signature w \<in> set (map fst cs)"
    by (simp add: cluster_has_def)
  ultimately show ?thesis using assms by (simp add: mset_cluster_words_push)
next
  case False
  let ?cs = "cs @ [(signature w, [])]"
  from False have eq: "add_word cs w = cluster_push ?cs (signature w) w"
    by (simp add: add_word_def Let_def)
  from False assms have "distinct (map fst ?cs)" by (simp add: cluster_has_def)
  moreover have "signature w \<in> set (map fst ?cs)" by simp
  ultimately have "mset (cluster_words (cluster_push ?cs (signature w) w)) =
      add_mset w (mset (cluster_words ?cs))"
    by (rule mset_cluster_words_push)
  with eq show ?thesis by (simp add: cluster_words_def)
qed

lemma add_word_entries:
  assumes "(k, ws') \<in> set (add_word cs w)"
  shows "\<exists>ws. ((k, ws) \<in> set cs \<or> (k = signature w \<and> ws = []))
           \<and> ws' = (if k = signature w then ws @ [w] else ws)"
proof -
  let ?cs = "if \<not> cluster_has cs (signature w) then cs @ [(signature w, [])] else cs"
  from assms have "(k, ws') \<in> set (cluster_push ?cs (signature w) w)"
    by (simp add: add_word_def Let_def)
  then obtain ws where "(k, ws) \<in> set ?cs"
      and "ws' = (if k = signature w then ws @ [w] else ws)"
    by (blast dest: cluster_push_entries)
  then show ?thesis by (auto split: if_splits)
qed

lemma add_word_keyed:
  assumes "keyed_by_signature cs"
  shows "keyed_by_signature (add_word cs w)"
  unfolding keyed_by_signature_def
proof (clarify)
  fix k ws' x
  assume "(k, ws') \<in> set (add_word cs w)" and x: "x \<in> set ws'"
  then obtain ws where ws: "(k, ws) \<in> set cs \<or> (k = signature w \<and> ws = [])"
      and ws': "ws' = (if k = signature w then ws @ [w] else ws)"
    by (blast dest: add_word_entries)
  show "signature x = k"
  proof (cases "x \<in> set ws")
    case True
    with ws assms show ?thesis by (auto simp: keyed_by_signature_def)
  next
    case False
    with x ws' show ?thesis by (auto split: if_splits)
  qed
qed

lemma add_word_has: "\<exists>ws. (signature w, ws) \<in> set (add_word cs w) \<and> w \<in> set ws"
proof -
  let ?cs = "if \<not> cluster_has cs (signature w) then cs @ [(signature w, [])] else cs"
  have "signature w \<in> set (map fst ?cs)" by (auto simp: cluster_has_def)
  then obtain ws where "(signature w, ws) \<in> set ?cs" by force
  then have "(signature w, ws @ [w]) \<in> set (cluster_push ?cs (signature w) w)"
    by (rule cluster_push_member)
  then have "(signature w, ws @ [w]) \<in> set (add_word cs w)"
    by (simp add: add_word_def Let_def)
  then show ?thesis by force
qed

lemma add_word_keeps:
  assumes "(k, ws) \<in> set cs"
  shows "\<exists>ws'. (k, ws') \<in> set (add_word cs w) \<and> set ws \<subseteq> set ws'"
proof -
  let ?cs = "if \<not> cluster_has cs (signature w) then cs @ [(signature w, [])] else cs"
  from assms have "(k, ws) \<in> set ?cs" by simp
  then have "\<exists>ws'. (k, ws') \<in> set (cluster_push ?cs (signature w) w) \<and> set ws \<subseteq> set ws'"
    by (rule cluster_push_keeps)
  then show ?thesis by (simp add: add_word_def Let_def)
qed

lemma add_words_keeps:
  "(k, ws) \<in> set cs \<Longrightarrow> \<exists>ws'. (k, ws') \<in> set (add_words cs words) \<and> set ws \<subseteq> set ws'"
proof (induction words arbitrary: cs ws)
  case Nil
  then show ?case by (auto simp: add_words_def)
next
  case (Cons a words)
  from add_word_keeps [OF Cons.prems, of a]
  obtain ws1 where 1: "(k, ws1) \<in> set (add_word cs a)" and 2: "set ws \<subseteq> set ws1"
    by blast
  from Cons.IH [OF 1] obtain ws' where "(k, ws') \<in> set (add_words (add_word cs a) words)"
      and "set ws1 \<subseteq> set ws'" by blast
  with 2 show ?case by (auto simp: add_words_def)
qed

lemma add_words_has:
  "w \<in> set words \<Longrightarrow> \<exists>ws. (signature w, ws) \<in> set (add_words cs words) \<and> w \<in> set ws"
proof (induction words arbitrary: cs)
  case Nil
  then show ?case by simp
next
  case (Cons a words)
  show ?case
  proof (cases "w \<in> set words")
    case True
    from Cons.IH [OF this, of "add_word cs a"] show ?thesis by (simp add: add_words_def)
  next
    case False
    with Cons.prems have "w = a" by simp
    then obtain ws1 where 1: "(signature w, ws1) \<in> set (add_word cs a)" and 2: "w \<in> set ws1"
      using add_word_has [of a cs] by blast
    from add_words_keeps [OF 1, of words] 2 show ?thesis
      by (auto simp: add_words_def)
  qed
qed

lemma add_words_index:
  "distinct (map fst cs) \<Longrightarrow> keyed_by_signature cs \<Longrightarrow>
     distinct (map fst (add_words cs words))
     \<and> keyed_by_signature (add_words cs words)
     \<and> mset (cluster_words (add_words cs words)) = mset (cluster_words cs) + mset words"
proof (induction words arbitrary: cs)
  case Nil
  then show ?case by (simp add: add_words_def)
next
  case (Cons a words)
  from Cons.prems have "distinct (map fst (add_word cs a))" and "keyed_by_signature (add_word cs a)"
    by (simp_all add: add_word_keys add_word_keyed)
  from Cons.IH [OF this] Cons.prems(1) show ?case
    by (simp add: add_words_def add_word_mset)
qed

lemma isSubset_refl: "isSubset k k"
  by (simp add: isSubset_iff_mset)

lemma allValid_cluster:
  "(k, ws) \<in> set (clusters e) \<Longrightarrow> isSubset k rootSorted \<Longrightarrow> set ws \<subseteq> set (allValid e rootSorted)"
  by (force simp: allValid_def)

lemma mset_concat_filter:
  "mset (concat (map snd (filter P cs))) \<subseteq># mset (concat (map snd cs))"
proof (induction cs)
  case Nil
  show ?case by simp
next
  case (Cons c cs)
  show ?case
  proof (cases "P c")
    case True
    with Cons show ?thesis by simp
  next
    case False
    from Cons have "mset (concat (map snd (filter P cs))) \<subseteq># mset (snd c) + mset (concat (map snd cs))"
      by (rule subset_mset.add_increasing [rotated]) simp
    with False show ?thesis by simp
  qed
qed

lemma mset_allValid_subset: "mset (allValid e rootSorted) \<subseteq># mset (cluster_words (clusters e))"
  by (simp add: allValid_def cluster_words_def mset_concat_filter)

lemma set_allValid:
  assumes "keyed_by_signature (clusters e)"
  shows "set (allValid e rootSorted) =
    {w \<in> set (cluster_words (clusters e)). isSubset (signature w) rootSorted}"
proof (intro set_eqI iffI)
  fix w
  assume "w \<in> set (allValid e rootSorted)"
  then obtain k ws where in_cs: "(k, ws) \<in> set (clusters e)" and sub: "isSubset k rootSorted" and w: "w \<in> set ws"
    by (auto simp: allValid_def)
  from assms in_cs w have "signature w = k" by (auto simp: keyed_by_signature_def)
  moreover from in_cs w have "w \<in> set (cluster_words (clusters e))"
    by (force simp: cluster_words_def)
  ultimately show "w \<in> {w \<in> set (cluster_words (clusters e)). isSubset (signature w) rootSorted}"
    using sub by simp
next
  fix w
  assume "w \<in> {w \<in> set (cluster_words (clusters e)). isSubset (signature w) rootSorted}"
  then have "w \<in> set (cluster_words (clusters e))" and sub: "isSubset (signature w) rootSorted"
    by simp_all
  then obtain k ws where in_cs: "(k, ws) \<in> set (clusters e)" and w: "w \<in> set ws"
    by (auto simp: cluster_words_def)
  from assms in_cs w have "signature w = k" by (auto simp: keyed_by_signature_def)
  with sub in_cs have "set ws \<subseteq> set (allValid e rootSorted)"
    by (simp add: allValid_cluster)
  with w show "w \<in> set (allValid e rootSorted)" by blast
qed

subsection \<open>Loading\<close>

lemma init_try_cases:
  obtains (loaded) raw where "fetched = Some (Response True (Some raw))"
      and "init_try fetched e = Inr \<lparr>clusters = add_words [] (new_Set (fetchedWords raw @ PRIORITY_WORDS)),
             dictionary = new_Set (fetchedWords raw @ PRIORITY_WORDS),
             dictionarySet = set (new_Set (fetchedWords raw @ PRIORITY_WORDS))\<rparr>"
  | (failed) error where "init_try fetched e = Inl error"
proof (cases fetched)
  case None
  then have "init_try fetched e = Inl Fetch_rejected" by (simp add: init_try_def)
  then show ?thesis by (rule failed)
next
  case (Some resp)
  obtain b t where resp: "resp = Response b t" by (cases resp)
  show ?thesis
  proof (cases b)
    case False
    with Some resp have "init_try fetched e = Inl Dictionary_fetch_failed"
      by (simp add: init_try_def)
    then show ?thesis by (rule failed)
  next
    case True
    show ?thesis
    proof (cases t)
      case None
      with Some resp True have "init_try fetched e = Inl Text_rejected"
        by (simp add: init_try_def)
      then show ?thesis by (rule failed)
    next
      case (Some raw)
      with \<open>fetched = Some resp\<close> resp True show ?thesis
        by (intro loaded [of raw]) (simp_all add: init_try_def Let_def)
    qed
  qed
qed

lemma init_failed: "init_try fetched e = Inl error \<Longrightarrow> init fetched e = init_catch e"
  by (simp add: init_def)

lemma init_loaded: "init_try fetched e = Inr e' \<Longrightarrow> init fetched e = e'"
  by (simp add: init_def)

lemma PRIORITY_WORDS_admitted: "list_all admitted PRIORITY_WORDS"
  by code_simp

lemma fallback_admitted: "list_all admitted fallback"
  by code_simp

lemma fallback_distinct: "distinct fallback"
  by code_simp

lemma init_dictionary_admitted: "w \<in> set (dictionary (init fetched e)) \<Longrightarrow> admitted w"
proof (cases fetched e rule: init_try_cases)
  case (loaded raw)
  assume "w \<in> set (dictionary (init fetched e))"
  with loaded(2) have "w \<in> set (fetchedWords raw) \<or> w \<in> set PRIORITY_WORDS"
    by (auto simp: init_loaded set_new_Set)
  then show ?thesis
    using PRIORITY_WORDS_admitted by (auto simp: fetchedWords_def list_all_iff)
next
  case (failed error)
  assume "w \<in> set (dictionary (init fetched e))"
  with failed have "w \<in> set fallback" by (simp add: init_failed init_catch_def)
  then show ?thesis using fallback_admitted by (simp add: list_all_iff)
qed

lemma init_dictionarySet: "dictionarySet (init fetched e) = set (dictionary (init fetched e))"
proof (cases fetched e rule: init_try_cases)
  case (loaded raw)
  then show ?thesis by (simp add: init_loaded)
next
  case (failed error)
  then show ?thesis by (simp add: init_failed init_catch_def)
qed

lemma keyed_by_signature_Nil: "keyed_by_signature []"
  by (simp add: keyed_by_signature_def)

lemma add_words_fresh:
  "distinct (map fst (add_words [] words))
   \<and> keyed_by_signature (add_words [] words)
   \<and> mset (cluster_words (add_words [] words)) = mset words"
  using add_words_index [of "[]" words] by (simp add: keyed_by_signature_Nil cluster_words_def)

lemma init_index:
  assumes "clusters e = [] \<or> init_try fetched e = Inr e'"
  shows "distinct (map fst (clusters (init fetched e)))
   \<and> keyed_by_signature (clusters (init fetched e))
   \<and> mset (cluster_words (clusters (init fetched e))) = mset (dictionary (init fetched e))
   \<and> distinct (dictionary (init fetched e))"
proof (cases fetched e rule: init_try_cases)
  case (loaded raw)
  then show ?thesis
    using add_words_fresh [of "new_Set (fetchedWords raw @ PRIORITY_WORDS)"]
    by (simp add: init_loaded distinct_new_Set)
next
  case (failed error)
  with assms have "clusters e = []" by simp
  with failed show ?thesis
    using add_words_fresh [of fallback]
    by (simp add: init_failed init_catch_def fallback_distinct)
qed

lemma distinct_mset_eq: "mset xs = mset ys \<Longrightarrow> distinct ys \<Longrightarrow> distinct xs"
  by (rule distinct_mset_subset) simp_all

subsection \<open>Root selection and the level\<close>

lemma randomRoot_water: "rootWords e t = [] \<Longrightarrow> randomRoot rnd e t = ''water''"
  by (simp add: randomRoot_def at_index_def or_else_def)

lemma randomRoot_member:
  assumes "rootWords e t \<noteq> []" and "[] \<notin> set (rootWords e t)"
  shows "randomRoot rnd e t \<in> set (rootWords e t)"
proof -
  let ?ws = "rootWords e t"
  let ?k = "random_floor (root_draw rnd) (length ?ws)"
  from assms(1) have k: "?k < length ?ws" by (simp add: random_floor_less)
  then have "?ws ! ?k \<in> set ?ws" by simp
  moreover with assms(2) have "?ws ! ?k \<noteq> []" by metis
  ultimately show ?thesis using k
    by (simp add: randomRoot_def at_index_def or_else_def Let_def)
qed

lemma words_of_length_subset: "set (words_of_length e t) \<subseteq> set (dictionary e)"
  by (auto simp: words_of_length_def)

lemma words_of_length_length: "w \<in> set (words_of_length e t) \<Longrightarrow> int (length w) = t"
  by (simp add: words_of_length_def)


lemma rootWords_retry: "words_of_length e t = [] \<Longrightarrow> rootWords e t = words_of_length e 5"
  by (simp add: rootWords_def)

lemma rootLetters_generateLevel: "rootLetters (generateLevel rnd e t) = signature (randomRoot rnd e t)"
  by (simp add: generateLevel_def Let_def)

lemma validWords_generateLevel:
  "validWords (generateLevel rnd e t) =
     sort_words (selectedWords rnd (allValid e (signature (randomRoot rnd e t))))"
  by (simp add: generateLevel_def Let_def)

lemma displayLetters_generateLevel:
  "displayLetters (generateLevel rnd e t) = shuffle (shuffle_draw rnd) (toUpperCase (randomRoot rnd e t))"
  by (simp add: generateLevel_def Let_def)

lemma signature_water: "signature ''water'' = ''aertw''"
  by code_simp

lemma toUpperCase_water: "toUpperCase ''water'' = ''WATER''"
  by code_simp

lemma length_signature: "length (signature w) = length w"
  by (simp add: signature_def)

lemma fallback_six: "filter (\<lambda>w. length w = 6) fallback = []"
  by code_simp

lemma fallback_five:
  "filter (\<lambda>w. length w = 5) fallback =
     [''trust'', ''stair'', ''trail'', ''train'', ''react'', ''trace'', ''cater'', ''crate'', ''great'']"
  by code_simp

lemma validWords_nonempty:
  assumes "(signature (randomRoot rnd e t), ws) \<in> set (clusters e)" and "ws \<noteq> []"
  shows "validWords (generateLevel rnd e t) \<noteq> []"
proof -
  let ?pool = "allValid e (signature (randomRoot rnd e t))"
  from assms(1) have "set ws \<subseteq> set ?pool"
    by (rule allValid_cluster) (rule isSubset_refl)
  with assms(2) have pool: "?pool \<noteq> []" by auto
  have "selectedWords rnd ?pool \<noteq> []"
  proof (cases "length ?pool \<le> 12")
    case True
    with pool show ?thesis by (simp add: selectedWords_small)
  next
    case False
    then have "length (selectedWords rnd ?pool) = 12" by (simp add: selectedWords_large)
    then show ?thesis by auto
  qed
  then have "mset (sort_words (selectedWords rnd ?pool)) \<noteq> {#}"
    by (simp add: mset_sort_words)
  then show ?thesis by (simp add: validWords_generateLevel)
qed

lemma shuffle_WATER: "shuffle (\<lambda>i. draw_of 0) ''WATER'' = ''ATERW''"
  by (simp add: shuffle_def eval_nat_numeral random_floor_zero swap_def)

subsection \<open>The index and the pool when the clusters were cleared\<close>

text \<open>
  The \<open>try\<close> block clears the clusters before it rebuilds them; the \<open>catch\<close> block does
  not. So the Cluster Index partitions the dictionary after a call of \<open>init\<close> that loads,
  whatever the state before, and after one that fails only when there were no clusters
  before, as on a new engine.
\<close>

lemma cleared_index_partitions_dictionary:
  fixes fetched :: "response option" and e0 e' :: WordEngine
  defines "e \<equiv> init fetched e0"
  assumes cleared: "clusters e0 = [] \<or> init_try fetched e0 = Inr e'"
  shows "mset (cluster_words (clusters e)) = mset (dictionary e)
     \<and> distinct (cluster_words (clusters e))
     \<and> distinct (map fst (clusters e))
     \<and> (\<forall>w \<in> set (dictionary e). \<exists>!c. c \<in> set (clusters e) \<and> w \<in> set (snd c))
     \<and> (\<forall>c \<in> set (clusters e). \<forall>w \<in> set (snd c). fst c = signature w)"
proof -
  from init_index [OF cleared]
  have keys: "distinct (map fst (clusters e))"
    and keyed: "keyed_by_signature (clusters e)"
    and words: "mset (cluster_words (clusters e)) = mset (dictionary e)"
    and dict: "distinct (dictionary e)"
    by (simp_all add: e_def)
  from words dict have "distinct (cluster_words (clusters e))" by (rule distinct_mset_eq)
  moreover from keyed have own: "\<forall>c \<in> set (clusters e). \<forall>w \<in> set (snd c). fst c = signature w"
    by (auto simp: keyed_by_signature_def)
  moreover have "\<forall>w \<in> set (dictionary e). \<exists>!c. c \<in> set (clusters e) \<and> w \<in> set (snd c)"
  proof
    fix w
    assume "w \<in> set (dictionary e)"
    with words have "w \<in> set (cluster_words (clusters e))" by (metis set_mset_mset)
    then obtain c where c: "c \<in> set (clusters e)" "w \<in> set (snd c)"
      by (auto simp: cluster_words_def)
    show "\<exists>!c. c \<in> set (clusters e) \<and> w \<in> set (snd c)"
    proof (rule ex1I [of _ c])
      from c show "c \<in> set (clusters e) \<and> w \<in> set (snd c)" by simp
    next
      fix d
      assume d: "d \<in> set (clusters e) \<and> w \<in> set (snd d)"
      with own c have "fst d = fst c" by simp
      with d have "(fst c, snd d) \<in> set (clusters e)" by (metis prod.collapse)
      moreover from c have "(fst c, snd c) \<in> set (clusters e)" by simp
      ultimately have "snd d = snd c" using keys by (rule eq_key_imp_eq_value [rotated])
      with \<open>fst d = fst c\<close> show "d = c" by (simp add: prod_eq_iff)
    qed
  qed
  ultimately show ?thesis using keys words by blast
qed

text \<open>
  In such a state the candidate pool consists of the dictionary words whose signature is
  a multiset subset of the root signature, each once, and \<open>validWords\<close> has no duplicates.
\<close>

lemma cleared_index_pool:
  fixes fetched :: "response option" and rnd :: randomness and t :: int and e0 e' :: WordEngine
  defines "e \<equiv> init fetched e0"
  defines "lvl \<equiv> generateLevel rnd e t"
  defines "pool \<equiv> allValid e (rootLetters lvl)"
  assumes cleared: "clusters e0 = [] \<or> init_try fetched e0 = Inr e'"
  shows "set pool = {w \<in> set (dictionary e). mset (signature w) \<subseteq># mset (rootLetters lvl)}
     \<and> distinct pool
     \<and> (length pool \<le> 12 \<longrightarrow> mset (validWords lvl) = mset pool)
     \<and> (12 < length pool \<longrightarrow>
          length (validWords lvl) = 12 \<and> set (validWords lvl) \<subseteq> set pool \<and> distinct (validWords lvl))"
proof -
  from init_index [OF cleared]
  have keyed: "keyed_by_signature (clusters e)"
    and words: "mset (cluster_words (clusters e)) = mset (dictionary e)"
    and dict: "distinct (dictionary e)"
    by (simp_all add: e_def)
  from words have same: "set (cluster_words (clusters e)) = set (dictionary e)"
    by (metis set_mset_mset)
  have valid: "validWords lvl = sort_words (selectedWords rnd pool)"
    by (simp add: lvl_def pool_def validWords_generateLevel rootLetters_generateLevel)
  have 1: "set pool = {w \<in> set (dictionary e). mset (signature w) \<subseteq># mset (rootLetters lvl)}"
    unfolding pool_def set_allValid [OF keyed] same isSubset_iff_mset ..
  have "mset pool \<subseteq># mset (cluster_words (clusters e))"
    unfolding pool_def by (rule mset_allValid_subset)
  moreover from words dict have "distinct (cluster_words (clusters e))" by (rule distinct_mset_eq)
  ultimately have 2: "distinct pool" by (rule distinct_mset_subset)
  have 3: "mset (validWords lvl) = mset pool" if "length pool \<le> 12"
    using that by (simp add: valid selectedWords_small mset_sort_words)
  have 4: "length (validWords lvl) = 12 \<and> set (validWords lvl) \<subseteq> set pool \<and> distinct (validWords lvl)"
    if large: "12 < length pool"
  proof -
    have "size (mset (validWords lvl)) = size (mset (selectedWords rnd pool))"
      by (simp only: valid mset_sort_words)
    then have len: "length (validWords lvl) = 12"
      using selectedWords_large(1) [OF large, of rnd] by simp
    have sub: "mset (validWords lvl) \<subseteq># mset pool"
      using selectedWords_large(2) [OF large, of rnd] by (simp add: valid mset_sort_words)
    then have "set (validWords lvl) \<subseteq> set pool" by (metis set_mset_mono set_mset_mset)
    moreover from sub 2 have "distinct (validWords lvl)" by (rule distinct_mset_subset)
    ultimately show ?thesis using len by simp
  qed
  from 1 2 3 4 show ?thesis by blast
qed

subsection \<open>The selection in every state\<close>

text \<open>
  Whatever the state: a pool of at most 12 words is kept whole, a larger one gives exactly
  12 words, each at most as often as the pool has it; duplicates come from the pool only.
\<close>

lemma validWords_of_pool:
  fixes e :: WordEngine and rnd :: randomness and t :: int
  defines "lvl \<equiv> generateLevel rnd e t"
  defines "pool \<equiv> allValid e (rootLetters lvl)"
  shows "(length pool \<le> 12 \<longrightarrow> mset (validWords lvl) = mset pool)
     \<and> (12 < length pool \<longrightarrow> length (validWords lvl) = 12 \<and> mset (validWords lvl) \<subseteq># mset pool)
     \<and> (distinct pool \<longrightarrow> distinct (validWords lvl))"
proof -
  have valid: "validWords lvl = sort_words (selectedWords rnd pool)"
    by (simp add: lvl_def pool_def validWords_generateLevel rootLetters_generateLevel)
  have sub: "mset (validWords lvl) \<subseteq># mset pool"
    by (simp add: valid mset_sort_words mset_selectedWords)
  have 1: "mset (validWords lvl) = mset pool" if "length pool \<le> 12"
    using that by (simp add: valid selectedWords_small mset_sort_words)
  have 2: "length (validWords lvl) = 12" if large: "12 < length pool"
  proof -
    have "size (mset (validWords lvl)) = size (mset (selectedWords rnd pool))"
      by (simp only: valid mset_sort_words)
    then show ?thesis using selectedWords_large(1) [OF large, of rnd] by simp
  qed
  have 3: "distinct (validWords lvl)" if "distinct pool"
    using sub that by (rule distinct_mset_subset)
  from 1 2 3 sub show ?thesis by blast
qed

subsection \<open>Evaluations after a second \<open>init\<close> that fails\<close>

lemma random_floor_half_nine: "random_floor (draw_of (1 / 2)) 9 = 4"
proof -
  have "\<lfloor>(9 :: rat) / 2\<rfloor> = 4" by (simp add: floor_eq_iff)
  then show ?thesis by (simp add: random_floor.rep_eq draw_of.rep_eq)
qed

lemma failed_twice_clusters:
  "clusters failed_twice =
    [(''rstu'', [''rust'', ''rust'']), (''rsttu'', [''trust'', ''trust'']),
     (''arst'', [''star'', ''rats'', ''arts'', ''star'', ''rats'', ''arts'']),
     (''airst'', [''stair'', ''stair'']), (''ailrt'', [''trail'', ''trail'']),
     (''ainrt'', [''train'', ''train'']),
     (''acert'', [''react'', ''trace'', ''cater'', ''crate'', ''react'', ''trace'', ''cater'', ''crate'']),
     (''aert'', [''rate'', ''tear'', ''rate'', ''tear'']), (''aegrt'', [''great'', ''great'']),
     (''aegr'', [''gear'', ''gear'']),
     (''ader'', [''read'', ''dear'', ''dare'', ''read'', ''dear'', ''dare'']),
     (''acer'', [''care'', ''race'', ''care'', ''race'']), (''ceir'', [''rice'', ''rice'']),
     (''dorw'', [''word'', ''word'']), (''flow'', [''flow'', ''wolf'', ''flow'', ''wolf'']),
     (''belu'', [''blue'', ''blue'']), (''glow'', [''glow'', ''glow'']),
     (''losw'', [''slow'', ''slow'']), (''afst'', [''fast'', ''fast'']),
     (''alst'', [''last'', ''last'']), (''apst'', [''past'', ''past'']),
     (''aekl'', [''lake'', ''lake'']), (''aekp'', [''peak'', ''peak'']),
     (''abem'', [''beam'', ''beam'']),
     (''aemt'', [''team'', ''meat'', ''tame'', ''mate'', ''team'', ''meat'', ''tame'', ''mate'']),
     (''aelt'', [''late'', ''tale'', ''late'', ''tale'']), (''ghin'', [''nigh'', ''nigh'']),
     (''elor'', [''lore'', ''lore'']), (''abdr'', [''bard'', ''bard'']),
     (''aegs'', [''sage'', ''sage'']), (''aelv'', [''vale'', ''vale'']),
     (''moor'', [''moor'', ''moor''])]"
  by code_simp

lemma failed_twice_roots:
  "rootWords failed_twice 6 =
     [''trust'', ''stair'', ''trail'', ''train'', ''react'', ''trace'', ''cater'', ''crate'', ''great'']"
  by code_simp

lemma failed_twice_pool_react:
  "allValid failed_twice ''acert'' =
     [''react'', ''trace'', ''cater'', ''crate'', ''react'', ''trace'', ''cater'', ''crate'',
      ''rate'', ''tear'', ''rate'', ''tear'', ''care'', ''race'', ''care'', ''race'']"
  by code_simp

section \<open>The claims\<close>

subsection \<open>C1: the subset test\<close>

text \<open>
  C1, amended. The subset scan's test is a multiset-subset test: a candidate signature
  passes against a root signature exactly when every character occurs in the root
  signature at least as often as in the candidate. With root "strain", whose signature is
  "ainrst", the signatures of "rain", "rant", "stair", "train" and "saint" pass, and so
  does that of "trains", which is an anagram of "strain".
\<close>

theorem isSubset_multiset_subset:
  "(isSubset small big \<longleftrightarrow> (\<forall>c. count (mset small) c \<le> count (mset big) c))
   \<and> signature ''strain'' = ''ainrst''
   \<and> isSubset (signature ''rain'') (signature ''strain'')
   \<and> isSubset (signature ''rant'') (signature ''strain'')
   \<and> isSubset (signature ''stair'') (signature ''strain'')
   \<and> isSubset (signature ''train'') (signature ''strain'')
   \<and> isSubset (signature ''saint'') (signature ''strain'')
   \<and> isSubset (signature ''trains'') (signature ''strain'')"
proof -
  have general: "isSubset small big \<longleftrightarrow> (\<forall>c. count (mset small) c \<le> count (mset big) c)"
    by (simp add: isSubset_iff_mset subseteq_mset_def)
  have sig: "signature ''strain'' = ''ainrst''"
    by code_simp
  have "isSubset (signature ''rain'') (signature ''strain'')"
    and "isSubset (signature ''rant'') (signature ''strain'')"
    and "isSubset (signature ''stair'') (signature ''strain'')"
    and "isSubset (signature ''train'') (signature ''strain'')"
    and "isSubset (signature ''saint'') (signature ''strain'')"
    and "isSubset (signature ''trains'') (signature ''strain'')"
    by code_simp+
  with general sig show ?thesis by simp
qed

text \<open>
  C1 as stated fails on its last example: "trains" has one "s", as "strain" has, so its
  signature is the root's own and the test accepts it.
\<close>

theorem trains_classified_valid:
  "signature ''trains'' = ''ainrst'' \<and> isSubset (signature ''trains'') (signature ''strain'')"
  by code_simp

subsection \<open>C2: the fallback word list\<close>

text \<open>
  C2, amended. When the raw source fails (the \<open>try\<close> block throws), the dictionary is
  the fallback list. That list has 46 words, at least 40; each has 4 or 5 letters, and both
  lengths occur; it includes the supplement words "nigh", "lore", "bard", "sage", "vale"
  and "moor".
\<close>

theorem fallback_word_list:
  "length fallback = 46
   \<and> (\<forall>w \<in> set fallback. length w = 4 \<or> length w = 5)
   \<and> 4 \<in> set (map length fallback) \<and> 5 \<in> set (map length fallback)
   \<and> set [''nigh'', ''lore'', ''bard'', ''sage'', ''vale'', ''moor''] \<subseteq> set PRIORITY_WORDS \<inter> set fallback
   \<and> (\<forall>error. init_try fetched e = Inl error \<longrightarrow>
         dictionary (init fetched e) = fallback \<and> dictionarySet (init fetched e) = set fallback)"
proof -
  have "length fallback = 46" by code_simp
  moreover have "\<forall>w \<in> set fallback. length w = 4 \<or> length w = 5" by code_simp
  moreover have "4 \<in> set (map length fallback)" and "5 \<in> set (map length fallback)" by code_simp+
  moreover have "set [''nigh'', ''lore'', ''bard'', ''sage'', ''vale'', ''moor''] \<subseteq> set PRIORITY_WORDS \<inter> set fallback"
    by code_simp
  moreover have "\<forall>error. init_try fetched e = Inl error \<longrightarrow>
         dictionary (init fetched e) = fallback \<and> dictionarySet (init fetched e) = set fallback"
    by (simp add: init_failed init_catch_def)
  ultimately show ?thesis by blast
qed

text \<open>
  The theorem at a source whose \<open>fetch\<close> rejects, and at the fallback word "rust".
\<close>

theorem fallback_word_list_witness:
  "init_try None new_WordEngine = Inl Fetch_rejected
   \<and> dictionary (init None new_WordEngine) = fallback
   \<and> ''rust'' \<in> set fallback \<and> length ''rust'' = 4"
proof -
  have 1: "init_try None new_WordEngine = Inl Fetch_rejected" by (simp add: init_try_def)
  have 2: "''rust'' \<in> set fallback" by code_simp
  from fallback_word_list [of None new_WordEngine] 1 2 show ?thesis by auto
qed

text \<open>
  C2 as stated fails: the fallback list has no word of 6 or 7 letters, and the supplement
  word "fain" is not in it.
\<close>

theorem fallback_lacks_lengths_and_supplement:
  "6 \<notin> set (map length fallback) \<and> 7 \<notin> set (map length fallback)
   \<and> ''fain'' \<in> set PRIORITY_WORDS \<and> ''fain'' \<notin> set fallback"
  by code_simp

subsection \<open>C3: the cap of twelve words\<close>

text \<open>
  C3 on a re-initialised engine. After two calls of \<open>init\<close> that both fail, the clusters
  hold every fallback word twice. \<open>generateLevel(6)\<close> with root "react" then has a candidate
  pool of 16 entries, more than 12, and returns 12 \<open>validWords\<close> from the pool that are not
  free of duplicates: "react", "trace", "cater", "crate", "rate" and "tear", each twice.
\<close>

theorem failed_reinit_duplicates_validWords:
  "rootLetters (generateLevel half_draws failed_twice 6) = ''acert''
   \<and> length (allValid failed_twice (rootLetters (generateLevel half_draws failed_twice 6))) = 16
   \<and> length (validWords (generateLevel half_draws failed_twice 6)) = 12
   \<and> mset (validWords (generateLevel half_draws failed_twice 6)) =
       mset [''react'', ''trace'', ''cater'', ''crate'', ''react'', ''trace'', ''cater'', ''crate'',
             ''rate'', ''tear'', ''rate'', ''tear'']
   \<and> \<not> distinct (validWords (generateLevel half_draws failed_twice 6))"
proof -
  have len: "length (rootWords failed_twice 6) = 9"
    by (simp add: failed_twice_roots)
  have k: "random_floor (root_draw half_draws) (length (rootWords failed_twice 6)) = 4"
    unfolding len by (simp add: half_draws_def random_floor_half_nine)
  have root: "randomRoot half_draws failed_twice 6 = ''react''"
    unfolding randomRoot_def Let_def k
    by (simp add: failed_twice_roots at_index_def or_else_def)
  have "signature ''react'' = ''acert''" by code_simp
  with root have letters: "rootLetters (generateLevel half_draws failed_twice 6) = ''acert''"
    by (simp add: rootLetters_generateLevel)
  have scored: "scoredWords half_draws ws = map (\<lambda>w. (w, 0)) ws" for ws
  proof -
    have "scoredWords half_draws ws = map ((\<lambda>w. (w, 0)) \<circ> snd) (enumerate 0 ws)"
      by (simp add: scoredWords_def half_draws_def case_prod_beta comp_def)
    also have "\<dots> = map (\<lambda>w. (w, 0)) (map snd (enumerate 0 ws))" by (simp only: map_map)
    also have "\<dots> = map (\<lambda>w. (w, 0)) ws" by (simp only: map_snd_enumerate)
    finally show ?thesis .
  qed
  have sel: "selectedWords half_draws (allValid failed_twice ''acert'') =
      [''react'', ''trace'', ''cater'', ''crate'', ''react'', ''trace'', ''cater'', ''crate'',
       ''rate'', ''tear'', ''rate'', ''tear'']"
    by (simp add: selectedWords_def failed_twice_pool_react scored sort_key_const)
  have valid: "mset (validWords (generateLevel half_draws failed_twice 6)) =
      mset [''react'', ''trace'', ''cater'', ''crate'', ''react'', ''trace'', ''cater'', ''crate'',
            ''rate'', ''tear'', ''rate'', ''tear'']"
    by (simp only: validWords_generateLevel root \<open>signature ''react'' = ''acert''\<close> sel mset_sort_words)
  then have "size (mset (validWords (generateLevel half_draws failed_twice 6))) = 12" by simp
  then have len: "length (validWords (generateLevel half_draws failed_twice 6)) = 12" by simp
  have "\<not> distinct [''react'', ''trace'', ''cater'', ''crate'', ''react'', ''trace'', ''cater'', ''crate'',
            ''rate'', ''tear'', ''rate'', ''tear'']" by simp
  with valid have nd: "\<not> distinct (validWords (generateLevel half_draws failed_twice 6))"
    by (metis mset_eq_imp_distinct_iff)
  from letters len valid nd show ?thesis
    by (simp add: failed_twice_pool_react)
qed

subsection \<open>C4: the words of the dictionary\<close>

text \<open>
  C4. Whatever the source and the state before, every word of the dictionary that \<open>init\<close>
  leaves has between 4 and 7 characters, all of them letters a to z, has one of a, e, i,
  o, u, y among them, and is not in the blacklist.
\<close>

theorem dictionary_words_admitted:
  "\<forall>w \<in> set (dictionary (init fetched e)).
      4 \<le> length w \<and> length w \<le> 7
      \<and> (\<forall>c \<in> set w. CHR ''a'' \<le> c \<and> c \<le> CHR ''z'')
      \<and> (\<exists>c \<in> set w. c \<in> set ''aeiouy'')
      \<and> w \<notin> set BLACKLIST"
proof
  fix w
  assume "w \<in> set (dictionary (init fetched e))"
  then have "admitted w" by (rule init_dictionary_admitted)
  then show "4 \<le> length w \<and> length w \<le> 7
      \<and> (\<forall>c \<in> set w. CHR ''a'' \<le> c \<and> c \<le> CHR ''z'')
      \<and> (\<exists>c \<in> set w. c \<in> set ''aeiouy'')
      \<and> w \<notin> set BLACKLIST"
    unfolding admitted_def isCorrectLength_def isAlpha_def hasVowel_def isBlacklisted_def
      list_all_iff list_ex_iff by blast
qed

text \<open>
  The theorem at the word "wolf" of the fallback dictionary.
\<close>

theorem dictionary_words_admitted_witness:
  "''wolf'' \<in> set (dictionary (init None new_WordEngine))
   \<and> 4 \<le> length ''wolf'' \<and> length ''wolf'' \<le> 7 \<and> ''wolf'' \<notin> set BLACKLIST"
proof -
  have "''wolf'' \<in> set (dictionary (init None new_WordEngine))" by code_simp
  with dictionary_words_admitted [of None new_WordEngine] show ?thesis by blast
qed

subsection \<open>C5: the choice of the root\<close>



subsection \<open>C6: no word of seven letters\<close>

text \<open>
  C6, amended. On a dictionary with no 7-letter word, \<open>generateLevel(7)\<close> falls back to
  length 5 without error: its root is one of the 5-letter words when there is one and
  "water" otherwise, so the root and \<open>rootLetters\<close> have five characters.
\<close>

theorem no_seven_letter_words_retry_with_five:
  assumes "words_of_length e 7 = []"
  shows "length (randomRoot rnd e 7) = 5
       \<and> (words_of_length e 5 \<noteq> [] \<longrightarrow> randomRoot rnd e 7 \<in> set (words_of_length e 5))
       \<and> (words_of_length e 5 = [] \<longrightarrow> randomRoot rnd e 7 = ''water'')
       \<and> rootLetters (generateLevel rnd e 7) = signature (randomRoot rnd e 7)
       \<and> length (rootLetters (generateLevel rnd e 7)) = 5"
proof -
  from assms have retry: "rootWords e 7 = words_of_length e 5" by (rule rootWords_retry)
  have five: "length w = 5" if "w \<in> set (words_of_length e 5)" for w
    using words_of_length_length [OF that] by simp
  have member: "randomRoot rnd e 7 \<in> set (words_of_length e 5)" if "words_of_length e 5 \<noteq> []"
  proof -
    from five have "[] \<notin> set (words_of_length e 5)" by fastforce
    with that randomRoot_member [of e 7 rnd] show ?thesis by (simp add: retry)
  qed
  have water: "randomRoot rnd e 7 = ''water''" if "words_of_length e 5 = []"
    using that by (simp add: randomRoot_water retry)
  have len: "length (randomRoot rnd e 7) = 5"
  proof (cases "words_of_length e 5 = []")
    case True
    then show ?thesis by (simp add: water)
  next
    case False
    then show ?thesis by (simp add: member five)
  qed
  with member water show ?thesis
    by (simp add: rootLetters_generateLevel length_signature)
qed

text \<open>
  The theorem on the test dictionary "strain", "train" and on the empty dictionary.
\<close>

theorem no_seven_letter_words_retry_with_five_witness:
  "words_of_length (engine_of [''strain'', ''train'']) 7 = []
   \<and> words_of_length (engine_of [''strain'', ''train'']) 5 \<noteq> []
   \<and> length (randomRoot zero_draws (engine_of [''strain'', ''train'']) 7) = 5
   \<and> words_of_length new_WordEngine 7 = []
   \<and> words_of_length new_WordEngine 5 = []
   \<and> randomRoot zero_draws new_WordEngine 7 = ''water''"
proof -
  have a: "words_of_length (engine_of [''strain'', ''train'']) 7 = []" by code_simp
  have b: "words_of_length (engine_of [''strain'', ''train'']) 5 \<noteq> []" by code_simp
  have c: "words_of_length new_WordEngine 7 = []" by code_simp
  have d: "words_of_length new_WordEngine 5 = []" by code_simp
  from no_seven_letter_words_retry_with_five [OF a, of zero_draws]
    no_seven_letter_words_retry_with_five [OF c, of zero_draws] a b c d
  show ?thesis by simp
qed

text \<open>
  C6 as stated fails: on the test dictionary "strain", "train", which has a 6-letter word
  and no 7-letter word, \<open>generateLevel(7)\<close> takes the 5-letter word "train" as its root.
\<close>

theorem seven_falls_back_to_five_not_six:
  "words_of_length (engine_of [''strain'', ''train'']) 7 = []
   \<and> words_of_length (engine_of [''strain'', ''train'']) 6 = [''strain'']
   \<and> randomRoot zero_draws (engine_of [''strain'', ''train'']) 7 = ''train''
   \<and> rootLetters (generateLevel zero_draws (engine_of [''strain'', ''train'']) 7) = ''ainrt''"
proof -
  have a: "words_of_length (engine_of [''strain'', ''train'']) 7 = []" by code_simp
  have b: "words_of_length (engine_of [''strain'', ''train'']) 6 = [''strain'']" by code_simp
  have c: "rootWords (engine_of [''strain'', ''train'']) 7 = [''train'']" by code_simp
  have d: "randomRoot zero_draws (engine_of [''strain'', ''train'']) 7 = ''train''"
    by (simp add: randomRoot_def c zero_draws_def random_floor_zero at_index_def or_else_def)
  have "signature ''train'' = ''ainrt''" by code_simp
  with a b d show ?thesis by (simp add: rootLetters_generateLevel)
qed

subsection \<open>C7: a source that fails\<close>

text \<open>
  C7. When the raw source fails (the \<open>try\<close> block throws), whatever the state before,
  \<open>init\<close> completes with the state of its \<open>catch\<close> block, the dictionary is the fallback
  list and is not empty, and \<open>generateLevel(6)\<close> then returns a level whose \<open>validWords\<close> is
  not empty, for every randomness.
\<close>

theorem init_failure_falls_back:
  assumes "init_try fetched e = Inl error"
  shows "init fetched e = init_catch e
       \<and> dictionary (init fetched e) = fallback
       \<and> dictionary (init fetched e) \<noteq> []
       \<and> validWords (generateLevel rnd (init fetched e) 6) \<noteq> []"
proof -
  let ?e = "init fetched e"
  from assms have catch: "?e = init_catch e" by (rule init_failed)
  then have dict: "dictionary ?e = fallback" by (simp add: init_catch_def)
  have nonempty: "fallback \<noteq> []" by (simp add: fallback_def)
  from dict have "words_of_length ?e 6 = []"
    by (simp add: words_of_length_def fallback_six)
  then have "rootWords ?e 6 = words_of_length ?e 5" by (rule rootWords_retry)
  with dict have roots: "rootWords ?e 6 =
      [''trust'', ''stair'', ''trail'', ''train'', ''react'', ''trace'', ''cater'', ''crate'', ''great'']"
    by (simp add: words_of_length_def fallback_five)
  then have "rootWords ?e 6 \<noteq> []" and "[] \<notin> set (rootWords ?e 6)" by simp_all
  then have "randomRoot rnd ?e 6 \<in> set (rootWords ?e 6)" by (rule randomRoot_member)
  then have "randomRoot rnd ?e 6 \<in> set fallback"
    using dict words_of_length_subset [of ?e 5] \<open>rootWords ?e 6 = words_of_length ?e 5\<close> by auto
  then obtain ws where "(signature (randomRoot rnd ?e 6), ws) \<in> set (add_words (clusters e) fallback)"
      and "randomRoot rnd ?e 6 \<in> set ws"
    using add_words_has by blast
  then have "(signature (randomRoot rnd ?e 6), ws) \<in> set (clusters ?e)" and "ws \<noteq> []"
    by (auto simp: catch init_catch_def)
  then have "validWords (generateLevel rnd ?e 6) \<noteq> []" by (rule validWords_nonempty)
  with catch dict nonempty show ?thesis by simp
qed

text \<open>
  The theorem at a source whose \<open>fetch\<close> rejects, on a new engine.
\<close>

theorem init_failure_falls_back_witness:
  "init_try None new_WordEngine = Inl Fetch_rejected
   \<and> dictionary (init None new_WordEngine) = fallback
   \<and> validWords (generateLevel zero_draws (init None new_WordEngine) 6) \<noteq> []"
proof -
  have a: "init_try None new_WordEngine = Inl Fetch_rejected" by (simp add: init_try_def)
  from init_failure_falls_back [OF a, of zero_draws] a show ?thesis by blast
qed

subsection \<open>C8: the Cluster Index partitions the dictionary\<close>

text \<open>
  C8 on a re-initialised engine. The \<open>catch\<close> block of \<open>init\<close> adds the fallback words to
  the clusters it finds. After two calls that both fail, the dictionary has the 46
  fallback words and the clusters hold 92, "rust" twice in its cluster: the clusters are
  not a partition of the dictionary. After a call that loads the sample word list and a
  call that fails, "strain" is in the clusters and not in the dictionary.
\<close>

theorem failed_reinit_keeps_old_clusters:
  "dictionary failed_twice = fallback
   \<and> length (dictionary failed_twice) = 46
   \<and> length (cluster_words (clusters failed_twice)) = 92
   \<and> (''rstu'', [''rust'', ''rust'']) \<in> set (clusters failed_twice)
   \<and> \<not> distinct (cluster_words (clusters failed_twice))
   \<and> ''strain'' \<in> set (cluster_words (clusters loaded_then_failed))
   \<and> ''strain'' \<notin> set (dictionary loaded_then_failed)"
proof -
  have "dictionary failed_twice = fallback"
    by (simp add: failed_twice_def init_def init_try_def init_catch_def)
  moreover have "length fallback = 46" by code_simp
  moreover have "length (cluster_words (clusters failed_twice)) = 92"
    by (simp add: failed_twice_clusters cluster_words_def)
  moreover have "(''rstu'', [''rust'', ''rust'']) \<in> set (clusters failed_twice)"
    by (simp add: failed_twice_clusters)
  moreover have "\<not> distinct (cluster_words (clusters failed_twice))"
    by (simp add: failed_twice_clusters cluster_words_def)
  moreover have "''strain'' \<in> set (cluster_words (clusters loaded_then_failed))" by code_simp
  moreover have "''strain'' \<notin> set (dictionary loaded_then_failed)" by code_simp
  ultimately show ?thesis by simp
qed

subsection \<open>C9: the display letters\<close>

text \<open>
  C9, amended. For every level, \<open>displayLetters\<close> is a permutation of the upper-cased
  characters of the root word, which are the upper-cased characters of \<open>rootLetters\<close>; its
  length is that of the root word and of \<open>rootLetters\<close>.
\<close>

theorem displayLetters_permutation_upper_case:
  "mset (displayLetters (generateLevel rnd e t)) = mset (toUpperCase (randomRoot rnd e t))
   \<and> mset (displayLetters (generateLevel rnd e t)) =
       image_mset upper_char (mset (rootLetters (generateLevel rnd e t)))
   \<and> length (displayLetters (generateLevel rnd e t)) = length (randomRoot rnd e t)
   \<and> length (displayLetters (generateLevel rnd e t)) = length (rootLetters (generateLevel rnd e t))"
proof -
  let ?root = "randomRoot rnd e t"
  have 1: "mset (displayLetters (generateLevel rnd e t)) = mset (toUpperCase ?root)"
    by (simp add: displayLetters_generateLevel mset_shuffle)
  have "mset (toUpperCase ?root) = image_mset upper_char (mset (signature ?root))"
    by (simp add: toUpperCase_def mset_signature)
  with 1 have 2: "mset (displayLetters (generateLevel rnd e t)) =
       image_mset upper_char (mset (rootLetters (generateLevel rnd e t)))"
    by (simp add: rootLetters_generateLevel)
  have 3: "length (displayLetters (generateLevel rnd e t)) = length ?root"
    by (simp add: displayLetters_generateLevel length_shuffle toUpperCase_def)
  then have "length (displayLetters (generateLevel rnd e t)) = length (rootLetters (generateLevel rnd e t))"
    by (simp add: rootLetters_generateLevel length_signature)
  with 1 2 3 show ?thesis by simp
qed

text \<open>
  C9 as stated fails: \<open>rootLetters\<close> is in lower case and \<open>displayLetters\<close> in upper case.
  With the default root the one is "aertw" and the other a permutation of "WATER".
\<close>

theorem displayLetters_upper_rootLetters_lower:
  "rootLetters (generateLevel zero_draws new_WordEngine 6) = ''aertw''
   \<and> displayLetters (generateLevel zero_draws new_WordEngine 6) = ''ATERW''
   \<and> mset (displayLetters (generateLevel zero_draws new_WordEngine 6)) \<noteq>
       mset (rootLetters (generateLevel zero_draws new_WordEngine 6))"
proof -
  have "rootWords new_WordEngine 6 = []" by code_simp
  then have root: "randomRoot zero_draws new_WordEngine 6 = ''water''" by (rule randomRoot_water)
  then have r: "rootLetters (generateLevel zero_draws new_WordEngine 6) = ''aertw''"
    by (simp add: rootLetters_generateLevel signature_water)
  from root have d: "displayLetters (generateLevel zero_draws new_WordEngine 6) = ''ATERW''"
    by (simp add: displayLetters_generateLevel toUpperCase_water zero_draws_def shuffle_WATER)
  have "CHR ''W'' \<in># mset ''ATERW''" and "CHR ''W'' \<notin># mset ''aertw''" by simp_all
  then have "mset ''ATERW'' \<noteq> mset ''aertw''" by metis
  with r d show ?thesis by simp
qed

subsection \<open>C10: \<open>generateLevel\<close> on any state\<close>

text \<open>
  C10. In every state, for every target length and randomness, \<open>generateLevel\<close> returns a
  level with empty \<open>foundWords\<close> whose \<open>validWords\<close> are words of the clusters. When the
  dictionary has no word of the target length and none of length 5, the root is "water":
  \<open>rootLetters\<close> is "aertw" and \<open>displayLetters\<close> a permutation of "WATER". When there are no
  clusters, as in the empty state, \<open>validWords\<close> is empty.
\<close>

theorem generateLevel_total_default_root:
  "foundWords (generateLevel rnd e t) = {}
   \<and> set (validWords (generateLevel rnd e t)) \<subseteq> set (cluster_words (clusters e))
   \<and> (words_of_length e t = [] \<and> words_of_length e 5 = [] \<longrightarrow>
        randomRoot rnd e t = ''water''
        \<and> rootLetters (generateLevel rnd e t) = ''aertw''
        \<and> mset (displayLetters (generateLevel rnd e t)) = mset ''WATER'')
   \<and> (clusters e = [] \<longrightarrow> validWords (generateLevel rnd e t) = [])"
proof -
  let ?pool = "allValid e (signature (randomRoot rnd e t))"
  have found: "foundWords (generateLevel rnd e t) = {}"
    by (simp add: generateLevel_def Let_def)
  have "mset (validWords (generateLevel rnd e t)) \<subseteq># mset ?pool"
    by (simp add: validWords_generateLevel mset_sort_words mset_selectedWords)
  also have "\<dots> \<subseteq># mset (cluster_words (clusters e))" by (rule mset_allValid_subset)
  finally have "mset (validWords (generateLevel rnd e t)) \<subseteq># mset (cluster_words (clusters e))" .
  then have drawn: "set (validWords (generateLevel rnd e t)) \<subseteq> set (cluster_words (clusters e))"
    by (metis set_mset_mono set_mset_mset)
  have water: "randomRoot rnd e t = ''water''
        \<and> rootLetters (generateLevel rnd e t) = ''aertw''
        \<and> mset (displayLetters (generateLevel rnd e t)) = mset ''WATER''"
    if "words_of_length e t = []" and "words_of_length e 5 = []"
  proof -
    from that have "randomRoot rnd e t = ''water''"
      by (simp add: randomRoot_water rootWords_retry)
    then show ?thesis
      by (simp add: rootLetters_generateLevel signature_water displayLetters_generateLevel
          mset_shuffle toUpperCase_water)
  qed
  have "validWords (generateLevel rnd e t) = []" if "clusters e = []"
    using that drawn by (simp add: cluster_words_def)
  with found drawn water show ?thesis by blast
qed

text \<open>
  The theorem on a new engine, whose dictionary and clusters are empty.
\<close>

theorem generateLevel_total_default_root_witness:
  "words_of_length new_WordEngine 6 = [] \<and> words_of_length new_WordEngine 5 = []
   \<and> clusters new_WordEngine = []
   \<and> rootLetters (generateLevel zero_draws new_WordEngine 6) = ''aertw''
   \<and> validWords (generateLevel zero_draws new_WordEngine 6) = []
   \<and> foundWords (generateLevel zero_draws new_WordEngine 6) = {}"
proof -
  have a: "words_of_length new_WordEngine 6 = []" "words_of_length new_WordEngine 5 = []"
    by code_simp+
  have b: "clusters new_WordEngine = []" by (simp add: new_WordEngine_def)
  from generateLevel_total_default_root [of zero_draws new_WordEngine 6] a b
  show ?thesis by simp
qed

end
